theory Spec2Isabelle
  imports Main "HOL-Library.Sublist"
begin

section \<open>The document: a tree of elements with ordered attributes\<close>

text \<open>
  \<open>src/inputIntoSelect.js\<close> consists of one function, \<open>replaceInputWithSelect\<close>, written
  against the browser's document object. The function is embedded over an explicit document
  tree. An element carries its tag name, its attribute list in enumeration order and its child
  nodes; a text node carries its data. Strings are lists of 8-bit characters, so code points
  above 255 are outside this development.

  The document is the list of the children of the Document node. A node is identified by its
  path: the child indices that lead to it from the Document node. Two nodes that look alike are
  still two nodes, because their paths differ.
\<close>

type_synonym attr = "string \<times> string"

datatype node = Element string "attr list" "node list" | Text string

type_synonym path = "nat list"

fun tagName :: "node \<Rightarrow> string option" where
  "tagName (Element t as cs) = Some t"
| "tagName (Text s) = None"

fun attributes :: "node \<Rightarrow> attr list" where
  "attributes (Element t as cs) = as"
| "attributes (Text s) = []"

fun childNodes :: "node \<Rightarrow> node list" where
  "childNodes (Element t as cs) = cs"
| "childNodes (Text s) = []"

definition getAttribute :: "string \<Rightarrow> node \<Rightarrow> string option" where
  "getAttribute name n = map_of (attributes n) name"

fun textContent :: "node \<Rightarrow> string" where
  "textContent (Text s) = s"
| "textContent (Element t as cs) = concat (map textContent cs)"

text \<open>
  \<open>node_at doc p\<close> is the node at path \<open>p\<close>, and \<open>container doc p\<close> is the child list of
  the node at \<open>p\<close> (of the Document node for the empty path). Both are \<open>None\<close> where the
  path leaves the tree.
\<close>

fun container :: "node list \<Rightarrow> path \<Rightarrow> node list option" where
  "container ns [] = Some ns"
| "container ns (i # p) =
     (if i < length ns
      then (case ns ! i of Element t as cs \<Rightarrow> container cs p | Text s \<Rightarrow> None)
      else None)"

fun node_at :: "node list \<Rightarrow> path \<Rightarrow> node option" where
  "node_at ns [] = None"
| "node_at ns [i] = (if i < length ns then Some (ns ! i) else None)"
| "node_at ns (i # j # p) =
     (if i < length ns
      then (case ns ! i of Element t as cs \<Rightarrow> node_at cs (j # p) | Text s \<Rightarrow> None)
      else None)"

text \<open>
  Tree order (document order) is preorder, depth first: a node comes before its descendants,
  and the subtree of a child comes before the subtree of the next child. \<open>subtree\<close> lists a
  node and its descendants in that order, each with its path relative to the node;
  \<open>nodes_from i ns\<close> lists the subtrees of the siblings \<open>ns\<close>, the first of which has
  index \<open>i\<close>.
\<close>

fun subtree :: "node \<Rightarrow> (path \<times> node) list"
  and nodes_from :: "nat \<Rightarrow> node list \<Rightarrow> (path \<times> node) list" where
  "subtree (Text s) = [([], Text s)]"
| "subtree (Element t as cs) = ([], Element t as cs) # nodes_from 0 cs"
| "nodes_from i [] = []"
| "nodes_from i (c # cs) = map (\<lambda>(p, n). (i # p, n)) (subtree c) @ nodes_from (Suc i) cs"

definition tree_order :: "node list \<Rightarrow> (path \<times> node) list" where
  "tree_order doc = nodes_from 0 doc"

text \<open>
  On paths, tree order is the lexicographic order in which a proper prefix (an ancestor) comes
  first.
\<close>

fun precedes :: "path \<Rightarrow> path \<Rightarrow> bool" where
  "precedes [] [] = False"
| "precedes [] (j # q) = True"
| "precedes (i # p) [] = False"
| "precedes (i # p) (j # q) = (i < j \<or> (i = j \<and> precedes p q))"


section \<open>Outcomes of a call\<close>

text \<open>
  A call of a host operation or of \<open>replaceInputWithSelect\<close> completes normally with a value
  or throws. The third outcome, \<open>Unmodelled\<close>, is not an outcome of the program: it marks
  the selector texts that lie outside the fragment of CSS parsed below, about which nothing
  is asserted.
\<close>

datatype js_error = SyntaxError | InvalidCharacterError | TypeError | HierarchyRequestError

datatype 'a completion = Normal 'a | Throw js_error | Unmodelled

datatype diagnostic = Warn string

record world =
  document :: "node list"
  console :: "diagnostic list"


section \<open>Host operations\<close>

subsection \<open>Selectors\<close>

text \<open>
  Line 8 builds the selector text from the template literal
  \<^verbatim>\<open>input[name="${fieldName}"]\<close>: the field name is spliced between the two double quotes
  as it is, with no escaping.
\<close>

definition dquote :: char where
  "dquote = CHR 0x22"

definition backslash :: char where
  "backslash = CHR 0x5C"

definition selector_text :: "string \<Rightarrow> string" where
  "selector_text fieldName = ''input[name='' @ [dquote] @ fieldName @ [dquote] @ '']''"

text \<open>
  The host parses the text as CSS. The fragment modelled here is the one the template is meant
  to produce: the type selector \<open>input\<close> with one attribute selector on \<open>name\<close> whose
  value is a double-quoted CSS string. Inside the string (CSS Syntax, consume a string token)
  \<^item> a double quote ends the string;
  \<^item> a line feed, carriage return or form feed makes the token a bad string, and no
    selector contains a bad string, so the selector is invalid;
  \<^item> a backslash starts an escape and U+0000 is replaced by U+FFFD, which has no 8-bit
    character: both are left outside the fragment;
  \<^item> every other character stands for itself.
  After the closing quote only \<open>]\<close> may follow in the fragment. When another double quote
  follows at once, a second string token stands inside the attribute selector, which the
  grammar of attribute selectors does not allow, so the selector is invalid. Any other
  continuation may be any selector at all and is left outside the fragment.
\<close>

datatype selector = Input_named string

definition css_newline :: "char \<Rightarrow> bool" where
  "css_newline c = (c = CHR 0x0A \<or> c = CHR 0x0D \<or> c = CHR 0x0C)"

fun quoted_value :: "string \<Rightarrow> selector completion" where
  "quoted_value [] = Unmodelled"
| "quoted_value (c # cs) =
     (if c = dquote then
        (if cs = '']'' then Normal (Input_named [])
         else (case cs of d # ds \<Rightarrow> if d = dquote then Throw SyntaxError else Unmodelled
                        | [] \<Rightarrow> Unmodelled))
      else if css_newline c then Throw SyntaxError
      else if c = backslash \<or> c = CHR 0x00 then Unmodelled
      else (case quoted_value cs of
              Normal (Input_named v) \<Rightarrow> Normal (Input_named (c # v))
            | Throw e \<Rightarrow> Throw e
            | Unmodelled \<Rightarrow> Unmodelled))"

definition parse_selector :: "string \<Rightarrow> selector completion" where
  "parse_selector s =
     (let opening = ''input[name='' @ [dquote]
      in if take (length opening) s = opening
         then quoted_value (drop (length opening) s)
         else Unmodelled)"

text \<open>
  An element matches \<open>input[name="v"]\<close> when its tag name is \<open>input\<close> and it has an
  attribute \<open>name\<close> whose value is exactly \<open>v\<close>. A text node matches no selector.
\<close>

fun matches :: "selector \<Rightarrow> node \<Rightarrow> bool" where
  "matches (Input_named v) (Element t as cs) = (t = ''input'' \<and> map_of as ''name'' = Some v)"
| "matches (Input_named v) (Text s) = False"

text \<open>
  \<open>document.querySelector\<close> (DOM Standard): throw a SyntaxError when the text does not
  parse; otherwise return the first node, in tree order, that matches, or null when none does.
  The node is returned with its path.
\<close>

definition querySelector :: "string \<Rightarrow> node list \<Rightarrow> (path \<times> node) option completion" where
  "querySelector s doc =
     (case parse_selector s of
        Throw e \<Rightarrow> Throw e
      | Unmodelled \<Rightarrow> Unmodelled
      | Normal sel \<Rightarrow> Normal (List.find (\<lambda>(p, n). matches sel n) (tree_order doc)))"


subsection \<open>Creating and changing elements\<close>

definition createElement :: "string \<Rightarrow> node" where
  "createElement localName = Element localName [] []"

text \<open>
  \<open>Element.setAttribute(qualifiedName, value)\<close> (DOM Standard), on an HTML element of an HTML
  document:
  \<^enum> throw an InvalidCharacterError unless the name is a valid attribute local name: not
    empty, and without ASCII whitespace, U+0000, \<open>/\<close>, \<open>=\<close> and \<open>>\<close>;
  \<^enum> put the name in ASCII lower case;
  \<^enum> change the value of the first attribute of that name, or append a new attribute when
    there is none.
  Older versions of the standard asked for an XML name in the first step, which refuses more
  names. A text node has no such method, and the call of an undefined property throws a
  TypeError.
\<close>

definition ascii_whitespace :: "char \<Rightarrow> bool" where
  "ascii_whitespace c =
     (c = CHR 0x09 \<or> c = CHR 0x0A \<or> c = CHR 0x0C \<or> c = CHR 0x0D \<or> c = CHR 0x20)"

definition name_char :: "char \<Rightarrow> bool" where
  "name_char c =
     (\<not> ascii_whitespace c \<and> c \<noteq> CHR 0x00 \<and>
      c \<noteq> CHR ''/'' \<and> c \<noteq> CHR ''='' \<and> c \<noteq> CHR ''>'')"

definition valid_attribute_local_name :: "string \<Rightarrow> bool" where
  "valid_attribute_local_name name = (name \<noteq> [] \<and> list_all name_char name)"

definition ascii_lower_char :: "char \<Rightarrow> char" where
  "ascii_lower_char c =
     (case map_of (zip ''ABCDEFGHIJKLMNOPQRSTUVWXYZ'' ''abcdefghijklmnopqrstuvwxyz'') c of
        Some l \<Rightarrow> l
      | None \<Rightarrow> c)"

definition ascii_lowercase :: "string \<Rightarrow> string" where
  "ascii_lowercase s = map ascii_lower_char s"

fun set_attr :: "string \<Rightarrow> string \<Rightarrow> attr list \<Rightarrow> attr list" where
  "set_attr k v [] = [(k, v)]"
| "set_attr k v ((k', v') # as) =
     (if k' = k then (k', v) # as else (k', v') # set_attr k v as)"

fun setAttribute :: "string \<Rightarrow> string \<Rightarrow> node \<Rightarrow> node completion" where
  "setAttribute qualifiedName v (Element t as cs) =
     (if \<not> valid_attribute_local_name qualifiedName then Throw InvalidCharacterError
      else Normal (Element t (set_attr (ascii_lowercase qualifiedName) v as) cs))"
| "setAttribute qualifiedName v (Text s) = Throw TypeError"

text \<open>
  \<open>parent.appendChild(child)\<close> adds the child after the last child of an element. A text
  node takes no children: HierarchyRequestError.
\<close>

fun appendChild :: "node \<Rightarrow> node \<Rightarrow> node completion" where
  "appendChild (Element t as cs) child = Normal (Element t as (cs @ [child]))"
| "appendChild (Text s) child = Throw HierarchyRequestError"

text \<open>
  \<open>input.parentNode.replaceChild(select, input)\<close>: the node at the path of \<open>input\<close> gives
  its place in the child list of its parent to \<open>select\<close>. The path comes from
  \<open>querySelector\<close>, so it lies in the tree and the parent exists; on a path that leaves the
  tree the document is returned as it is.
\<close>

fun replaceChild :: "path \<Rightarrow> node \<Rightarrow> node list \<Rightarrow> node list" where
  "replaceChild [] new ns = ns"
| "replaceChild [i] new ns = (if i < length ns then ns[i := new] else ns)"
| "replaceChild (i # j # p) new ns =
     (if i < length ns
      then (case ns ! i of
              Element t as cs \<Rightarrow> ns[i := Element t as (replaceChild (j # p) new cs)]
            | Text s \<Rightarrow> ns)
      else ns)"


subsection \<open>Values passed to attributes of the host\<close>

text \<open>
  An option object is read through its properties \<open>label\<close> and \<open>value\<close>. A property that
  is missing reads as \<open>undefined\<close>. The host converts what is assigned (Web IDL):
  \<^item> \<open>option.value\<close> has type DOMString: the value goes through ToString, so
    \<open>undefined\<close> becomes the text \<open>undefined\<close> and \<open>null\<close> the text \<open>null\<close>;
  \<^item> \<open>option.textContent\<close> has the nullable type DOMString?: \<open>undefined\<close> and
    \<open>null\<close> become null, which the setter treats as the empty string.
\<close>

datatype jsval = JUndefined | JNull | JString string

record opt =
  opt_label :: jsval
  opt_value :: jsval

fun to_DOMString :: "jsval \<Rightarrow> string" where
  "to_DOMString JUndefined = ''undefined''"
| "to_DOMString JNull = ''null''"
| "to_DOMString (JString s) = s"

fun to_nullable_DOMString :: "jsval \<Rightarrow> string option" where
  "to_nullable_DOMString JUndefined = None"
| "to_nullable_DOMString JNull = None"
| "to_nullable_DOMString (JString s) = Some s"

text \<open>
  The setter of \<open>option.value\<close> sets the content attribute \<open>value\<close>. The setter of
  \<open>textContent\<close> replaces all children by one text node holding the string, or by nothing
  when the string is empty.
\<close>

fun set_value :: "jsval \<Rightarrow> node \<Rightarrow> node" where
  "set_value v (Element t as cs) = Element t (set_attr ''value'' (to_DOMString v) as) cs"
| "set_value v (Text s) = Text s"

fun set_textContent :: "jsval \<Rightarrow> node \<Rightarrow> node" where
  "set_textContent v (Element t as cs) =
     (case to_nullable_DOMString v of
        None \<Rightarrow> Element t as []
      | Some s \<Rightarrow> if s = [] then Element t as [] else Element t as [Text s])"
| "set_textContent v (Text s) = Text (case to_nullable_DOMString v of None \<Rightarrow> [] | Some s' \<Rightarrow> s')"


section \<open>\<open>replaceInputWithSelect\<close>\<close>

text \<open>
  Lines 19 to 21: \<open>Array.from(input.attributes).forEach\<close> calls \<open>select.setAttribute\<close> for
  each attribute of the input, in enumeration order. An exception ends the loop and the call.
\<close>

fun copy_attributes :: "attr list \<Rightarrow> node \<Rightarrow> node completion" where
  "copy_attributes [] select = Normal select"
| "copy_attributes ((name, v) # as) select =
     (case setAttribute name v select of
        Normal select' \<Rightarrow> copy_attributes as select'
      | Throw e \<Rightarrow> Throw e
      | Unmodelled \<Rightarrow> Unmodelled)"

text \<open>
  Lines 24 to 29: for each option object, in order, a new \<open>option\<close> element gets its value
  and its text and is appended to the select.
\<close>

definition option_element :: "opt \<Rightarrow> node" where
  "option_element opt =
     set_textContent (opt_label opt) (set_value (opt_value opt) (createElement ''option''))"

fun add_options :: "opt list \<Rightarrow> node \<Rightarrow> node completion" where
  "add_options [] select = Normal select"
| "add_options (opt # opts) select =
     (case appendChild select (option_element opt) of
        Normal select' \<Rightarrow> add_options opts select'
      | Throw e \<Rightarrow> Throw e
      | Unmodelled \<Rightarrow> Unmodelled)"

definition not_found_message :: "string \<Rightarrow> string" where
  "not_found_message fieldName =
     ''Input with name '' @ [dquote] @ fieldName @ [dquote] @ '' not found''"

text \<open>
  The function returns \<open>undefined\<close> (\<open>None\<close>) after the warning, and the select otherwise.
  Nothing is written to the document before line 32, so a call that throws leaves the world as
  it was.
\<close>

definition replaceInputWithSelect ::
    "string \<Rightarrow> opt list \<Rightarrow> world \<Rightarrow> node option completion \<times> world" where
  "replaceInputWithSelect fieldName options w =
     (case querySelector (selector_text fieldName) (document w) of
        Throw e \<Rightarrow> (Throw e, w)
      | Unmodelled \<Rightarrow> (Unmodelled, w)
      | Normal None \<Rightarrow>
          (Normal None, w\<lparr>console := console w @ [Warn (not_found_message fieldName)]\<rparr>)
      | Normal (Some (p, input)) \<Rightarrow>
          (case copy_attributes (attributes input) (createElement ''select'') of
             Throw e \<Rightarrow> (Throw e, w)
           | Unmodelled \<Rightarrow> (Unmodelled, w)
           | Normal select \<Rightarrow>
               (case add_options options select of
                  Throw e \<Rightarrow> (Throw e, w)
                | Unmodelled \<Rightarrow> (Unmodelled, w)
                | Normal select' \<Rightarrow>
                    (Normal (Some select'),
                     w\<lparr>document := replaceChild p select' (document w)\<rparr>))))"


section \<open>Notions used in the statements\<close>

text \<open>
  A field name is plain when the template turns it into the selector it is meant to give: it
  has no double quote, no backslash, no line feed, carriage return or form feed, and no
  U+0000.
\<close>

definition plain_char :: "char \<Rightarrow> bool" where
  "plain_char c = (c \<noteq> dquote \<and> \<not> css_newline c \<and> c \<noteq> backslash \<and> c \<noteq> CHR 0x00)"

definition plain_name :: "string \<Rightarrow> bool" where
  "plain_name fieldName = list_all plain_char fieldName"

text \<open>An input element whose attribute \<open>name\<close> has the value \<open>f\<close>.\<close>

definition input_named :: "string \<Rightarrow> node \<Rightarrow> bool" where
  "input_named f n = (tagName n = Some ''input'' \<and> getAttribute ''name'' n = Some f)"

text \<open>The nodes of a document, in tree order.\<close>

definition all_nodes :: "node list \<Rightarrow> node list" where
  "all_nodes doc = map snd (tree_order doc)"

text \<open>
  \<open>setAttribute\<close> accepts an attribute name when it is a valid attribute local name, and
  keeps it as it is when it is in ASCII lower case. The names of the attributes of one element
  are pairwise distinct in a document that a parser or \<open>setAttribute\<close> built.
\<close>

definition accepted_names :: "attr list \<Rightarrow> bool" where
  "accepted_names as = list_all valid_attribute_local_name (map fst as)"

definition verbatim_names :: "attr list \<Rightarrow> bool" where
  "verbatim_names as =
     (accepted_names as \<and> list_all (\<lambda>k. ascii_lowercase k = k) (map fst as) \<and>
      distinct (map fst as))"

text \<open>The option object with both properties present.\<close>

definition Option :: "string \<Rightarrow> string \<Rightarrow> opt" where
  "Option l v = \<lparr>opt_label = JString l, opt_value = JString v\<rparr>"


section \<open>Example documents\<close>

text \<open>
  The document of the scenario in the specification: a form whose field \<open>size\<close> is the
  input \<^verbatim>\<open><input name="size" id="x" class="y">\<close>, between a label and a submit button;
  the select that takes the place of the input, and the form after the call.
\<close>

definition size_input :: node where
  "size_input = Element ''input'' [(''name'', ''size''), (''id'', ''x''), (''class'', ''y'')] []"

definition size_form :: "node list" where
  "size_form =
     [Element ''form'' [(''id'', ''hs'')]
        [Element ''label'' [] [Text ''Size''],
         size_input,
         Element ''input'' [(''type'', ''submit'')] []]]"

definition size_select :: "opt list \<Rightarrow> node" where
  "size_select opts =
     Element ''select'' [(''name'', ''size''), (''id'', ''x''), (''class'', ''y'')]
       (map option_element opts)"

definition size_form_replaced :: "opt list \<Rightarrow> node list" where
  "size_form_replaced opts =
     [Element ''form'' [(''id'', ''hs'')]
        [Element ''label'' [] [Text ''Size''],
         size_select opts,
         Element ''input'' [(''type'', ''submit'')] []]]"

definition size_world :: world where
  "size_world = \<lparr>document = size_form, console = []\<rparr>"

definition small_large :: "opt list" where
  "small_large = [Option ''Small'' ''s'', Option ''Large'' ''l'']"

text \<open>Option objects with a property missing.\<close>

definition no_value :: opt where
  "no_value = \<lparr>opt_label = JString ''Any'', opt_value = JUndefined\<rparr>"

definition no_label :: opt where
  "no_label = \<lparr>opt_label = JUndefined, opt_value = JString ''any''\<rparr>"

text \<open>
  Documents whose element named \<open>f\<close> is not an input; an input with an attribute in mixed
  case, as \<open>setAttributeNS\<close> sets it; an input with an attribute whose name starts with
  \<open>=\<close>, as the HTML parser reads \<^verbatim>\<open><input name="f" =b="c">\<close>; and a document
  with three elements named \<open>f\<close>.
\<close>

definition textarea_page :: "node list" where
  "textarea_page = [Element ''textarea'' [(''name'', ''f'')] []]"

definition select_page :: "node list" where
  "select_page = [Element ''select'' [(''name'', ''f'')] []]"

definition camel_case_input :: node where
  "camel_case_input = Element ''input'' [(''name'', ''f''), (''viewBox'', ''0 0 1 1'')] []"

definition equals_sign_page :: "node list" where
  "equals_sign_page = [Element ''input'' [(''name'', ''f''), (''=b'', ''c'')] []]"

definition first_f :: node where
  "first_f = Element ''input'' [(''name'', ''f''), (''id'', ''a'')] []"

definition mixed_page :: "node list" where
  "mixed_page =
     [Element ''textarea'' [(''name'', ''f'')] [],
      Element ''div'' [] [first_f],
      Element ''input'' [(''name'', ''f''), (''id'', ''b'')] []]"


section \<open>Lemmas about the host operations\<close>

subsection \<open>Selectors of plain field names\<close>

lemma quoted_value_plain:
  "list_all plain_char f \<Longrightarrow> quoted_value (f @ [dquote, CHR '']'']) = Normal (Input_named f)"
  by (induction f) (auto simp: plain_char_def)

lemma parse_selector_plain:
  "plain_name f \<Longrightarrow> parse_selector (selector_text f) = Normal (Input_named f)"
  by (simp add: parse_selector_def selector_text_def plain_name_def quoted_value_plain)

lemma matches_input_named: "matches (Input_named f) n = input_named f n"
  by (cases n) (auto simp: input_named_def getAttribute_def)

lemma querySelector_plain:
  assumes "plain_name f"
  shows "querySelector (selector_text f) doc =
    Normal (List.find (\<lambda>(p, n). input_named f n) (tree_order doc))"
proof -
  have "(\<lambda>(p :: path, n). matches (Input_named f) n) = (\<lambda>(p, n). input_named f n)"
    by (simp add: fun_eq_iff matches_input_named)
  with assms show ?thesis
    by (simp add: querySelector_def parse_selector_plain)
qed

lemma set_attr_fresh: "k \<notin> fst ` set as \<Longrightarrow> set_attr k v as = as @ [(k, v)]"
  by (induction as) auto

lemma copy_attributes_verbatim:
  "list_all valid_attribute_local_name (map fst as) \<Longrightarrow>
   list_all (\<lambda>k. ascii_lowercase k = k) (map fst as) \<Longrightarrow>
   distinct (map fst (bs @ as)) \<Longrightarrow>
   copy_attributes as (Element t bs cs) = Normal (Element t (bs @ as) cs)"
proof (induction as arbitrary: bs)
  case Nil
  then show ?case by simp
next
  case (Cons a as)
  obtain k v where a: "a = (k, v)" by (cases a)
  from Cons.prems a have fresh: "k \<notin> fst ` set bs" by auto
  from Cons.prems a have "distinct (map fst ((bs @ [(k, v)]) @ as))" by auto
  with Cons.IH [of "bs @ [(k, v)]"] Cons.prems a
  have "copy_attributes as (Element t (bs @ [(k, v)]) cs) = Normal (Element t (bs @ (k, v) # as) cs)"
    by simp
  with Cons.prems a fresh show ?case by (simp add: set_attr_fresh)
qed

lemma copy_attributes_accepted:
  "list_all valid_attribute_local_name (map fst as) \<Longrightarrow>
   \<exists>bs'. copy_attributes as (Element t bs cs) = Normal (Element t bs' cs)"
  by (induction as arbitrary: bs) auto

lemma copy_attributes_Normal:
  "copy_attributes as (Element t bs cs) = Normal n \<Longrightarrow> \<exists>bs'. n = Element t bs' cs"
  by (induction as arbitrary: bs) (auto split: if_splits)

lemma add_options_Element:
  "add_options opts (Element t as cs) = Normal (Element t as (cs @ map option_element opts))"
  by (induction opts arbitrary: cs) auto


subsection \<open>Paths and tree order\<close>

lemma node_at_empty [simp]: "node_at [] p = None"
proof (cases p)
  case Nil
  then show ?thesis by simp
next
  case (Cons i q)
  then show ?thesis by (cases q) simp_all
qed

lemma node_at_Cons:
  "node_at ns (j # q) =
     (if j < length ns
      then (if q = [] then Some (ns ! j) else node_at (childNodes (ns ! j)) q)
      else None)"
  by (cases q) (auto split: node.splits)

lemma precedes_irrefl [simp]: "\<not> precedes p p"
  by (induction p) auto

lemma precedes_asym: "precedes p q \<Longrightarrow> \<not> precedes q p"
  by (induction p q rule: precedes.induct) auto

lemma precedes_total: "p = q \<or> precedes p q \<or> precedes q p"
  by (induction p q rule: precedes.induct) auto

lemma in_subtree_nodes_from:
  "(p, m) \<in> set (subtree n) \<longleftrightarrow> (p = [] \<and> m = n) \<or> node_at (childNodes n) p = Some m"
  "(p, m) \<in> set (nodes_from i ns) \<longleftrightarrow> (\<exists>j q. p = (i + j) # q \<and> node_at ns (j # q) = Some m)"
proof (induction n and i ns arbitrary: p m and p m rule: subtree_nodes_from.induct)
  case (1 s)
  show ?case by auto
next
  case (2 t as cs)
  have "node_at cs p = Some m \<longleftrightarrow> (\<exists>j q. p = j # q \<and> node_at cs (j # q) = Some m)"
    by (cases p) auto
  with 2 [of p m] show ?case by auto
next
  case (3 i)
  show ?case by simp
next
  case (4 i c cs)
  have head: "node_at (c # cs) (0 # q) = Some m \<longleftrightarrow>
      (q = [] \<and> m = c) \<or> node_at (childNodes c) q = Some m" for q
    by (auto simp: node_at_Cons)
  have tail: "node_at (c # cs) (Suc j # q) = node_at cs (j # q)" for j q
    by (simp add: node_at_Cons)
  have "(p, m) \<in> set (nodes_from i (c # cs)) \<longleftrightarrow>
      (\<exists>q. p = i # q \<and> (q, m) \<in> set (subtree c)) \<or> (p, m) \<in> set (nodes_from (Suc i) cs)"
    by auto
  also have "\<dots> \<longleftrightarrow> (\<exists>q. p = i # q \<and> node_at (c # cs) (0 # q) = Some m) \<or>
      (\<exists>j q. p = (i + Suc j) # q \<and> node_at (c # cs) (Suc j # q) = Some m)"
    unfolding head tail "4.IH" by simp
  also have "\<dots> \<longleftrightarrow> (\<exists>j q. p = (i + j) # q \<and> node_at (c # cs) (j # q) = Some m)"
  proof
    assume "(\<exists>q. p = i # q \<and> node_at (c # cs) (0 # q) = Some m) \<or>
      (\<exists>j q. p = (i + Suc j) # q \<and> node_at (c # cs) (Suc j # q) = Some m)"
    then show "\<exists>j q. p = (i + j) # q \<and> node_at (c # cs) (j # q) = Some m"
      by (metis add.right_neutral)
  next
    assume "\<exists>j q. p = (i + j) # q \<and> node_at (c # cs) (j # q) = Some m"
    then obtain j q where jq: "p = (i + j) # q" "node_at (c # cs) (j # q) = Some m"
      by blast
    then show "(\<exists>q. p = i # q \<and> node_at (c # cs) (0 # q) = Some m) \<or>
      (\<exists>j q. p = (i + Suc j) # q \<and> node_at (c # cs) (Suc j # q) = Some m)"
      by (cases j) auto
  qed
  finally show ?case .
qed

lemma in_tree_order: "(p, m) \<in> set (tree_order doc) \<longleftrightarrow> node_at doc p = Some m"
proof -
  have "node_at doc p = Some m \<longleftrightarrow> (\<exists>j q. p = j # q \<and> node_at doc (j # q) = Some m)"
    by (cases p) auto
  then show ?thesis by (simp add: tree_order_def in_subtree_nodes_from(2))
qed

lemma sorted_subtree_nodes_from:
  "sorted_wrt precedes (map fst (subtree n))"
  "sorted_wrt precedes (map fst (nodes_from i ns)) \<and>
   (\<forall>x \<in> set (nodes_from i ns). \<exists>j q. fst x = j # q \<and> i \<le> j)"
proof (induction n and i ns rule: subtree_nodes_from.induct)
  case (1 s)
  show ?case by simp
next
  case (2 t as cs)
  then show ?case by fastforce
next
  case (3 i)
  show ?case by simp
next
  case (4 i c cs)
  have "sorted_wrt precedes (map fst (map (\<lambda>(p, n). (i # p, n)) (subtree c)))"
    using "4.IH"(1) by (simp add: sorted_wrt_map case_prod_beta)
  moreover have "\<forall>x \<in> set (nodes_from (Suc i) cs). \<exists>j q. fst x = j # q \<and> Suc i \<le> j"
    using "4.IH"(2) by blast
  ultimately show ?case
    using "4.IH"(2) by (fastforce simp: sorted_wrt_append)
qed

lemma sorted_tree_order: "sorted_wrt precedes (map fst (tree_order doc))"
  by (simp add: tree_order_def sorted_subtree_nodes_from(2))

lemma find_tree_order_Some:
  assumes "List.find (\<lambda>(p, n). P n) (tree_order doc) = Some (p, n)"
  shows "node_at doc p = Some n" and "P n"
    and "precedes q p \<Longrightarrow> node_at doc q = Some m \<Longrightarrow> \<not> P m"
proof -
  let ?xs = "tree_order doc"
  from assms obtain i where i: "i < length ?xs" "?xs ! i = (p, n)" "P n"
    and first: "\<forall>j<i. \<not> (case ?xs ! j of (p, n) \<Rightarrow> P n)"
    by (auto simp: find_Some_iff)
  from i have "(p, n) \<in> set ?xs" by (metis nth_mem)
  then show "node_at doc p = Some n" by (simp add: in_tree_order)
  show "P n" by fact
  assume q: "precedes q p" "node_at doc q = Some m"
  then have "(q, m) \<in> set ?xs" by (simp add: in_tree_order)
  then obtain j where j: "j < length ?xs" "?xs ! j = (q, m)"
    by (auto simp: in_set_conv_nth)
  have "j < i"
  proof (rule ccontr)
    assume "\<not> j < i"
    then consider "j = i" | "i < j" by linarith
    then show False
    proof cases
      case 1
      with i j q show False by simp
    next
      case 2
      from j 2 have "precedes (map fst ?xs ! i) (map fst ?xs ! j)"
        by (intro sorted_wrt_nth_less [OF sorted_tree_order]) simp_all
      with i j 2 have "precedes p q" by simp
      with q show False by (simp add: precedes_asym)
    qed
  qed
  with first j show "\<not> P m" by auto
qed

lemma find_tree_order_None:
  "List.find (\<lambda>(p, n). P n) (tree_order doc) = None \<longleftrightarrow> (\<forall>n \<in> set (all_nodes doc). \<not> P n)"
  by (auto simp: find_None_iff all_nodes_def)

lemma in_all_nodes: "n \<in> set (all_nodes doc) \<longleftrightarrow> (\<exists>p. node_at doc p = Some n)"
  by (force simp: all_nodes_def in_tree_order [symmetric])

lemma find_tree_order_first:
  assumes at: "node_at doc p = Some n" and holds: "P n"
    and first: "\<And>q m. precedes q p \<Longrightarrow> node_at doc q = Some m \<Longrightarrow> \<not> P m"
  shows "List.find (\<lambda>(p, n). P n) (tree_order doc) = Some (p, n)"
proof (cases "List.find (\<lambda>(p, n). P n) (tree_order doc)")
  case None
  with at holds show ?thesis
    by (auto simp: find_tree_order_None in_all_nodes)
next
  case (Some x)
  obtain p' n' where x: "x = (p', n')" by (cases x)
  note found = find_tree_order_Some [OF Some [unfolded x]]
  from precedes_total [of p p'] have "p = p'"
  proof (elim disjE)
    assume "precedes p p'"
    with found(3) at holds show ?thesis by blast
  next
    assume "precedes p' p"
    with first found(1,2) show ?thesis by blast
  qed
  with found(1) at Some x show ?thesis by simp
qed


subsection \<open>Replacing a child\<close>

lemma length_replaceChild [simp]: "length (replaceChild p new ns) = length ns"
  by (induction p new ns rule: replaceChild.induct) (auto split: node.splits)

lemma node_at_replaceChild_same:
  "node_at ns p = Some n \<Longrightarrow> node_at (replaceChild p new ns) p = Some new"
  by (induction p new ns rule: replaceChild.induct) (auto split: node.splits if_splits)

lemma node_at_replaceChild_other:
  "\<not> prefix p q \<Longrightarrow> \<not> prefix q p \<Longrightarrow> node_at (replaceChild p new ns) q = node_at ns q"
proof (induction p new ns arbitrary: q rule: replaceChild.induct)
  case (1 new ns)
  then show ?case by simp
next
  case (2 i new ns)
  then obtain k q' where q: "q = k # q'" "k \<noteq> i" by (cases q) auto
  then show ?case by (simp add: node_at_Cons)
next
  case (3 i j p new ns)
  from "3.prems" obtain k q' where q: "q = k # q'" by (cases q) auto
  show ?case
  proof (cases "k = i")
    case False
    with q show ?thesis by (auto simp: node_at_Cons split: node.splits)
  next
    case True
    with q "3.prems" have rest: "\<not> prefix (j # p) q'" "\<not> prefix q' (j # p)" by auto
    then obtain l q'' where q': "q' = l # q''" by (cases q') auto
    show ?thesis
    proof (cases "i < length ns")
      case False
      then show ?thesis by simp
    next
      case len: True
      show ?thesis
      proof (cases "ns ! i")
        case (Text s)
        with len show ?thesis by simp
      next
        case (Element t as cs)
        with len "3.IH" [OF len Element rest] q q' True show ?thesis by simp
      qed
    qed
  qed
qed

lemma node_at_replaceChild_ancestor:
  "strict_prefix q p \<Longrightarrow> node_at ns q = Some a \<Longrightarrow>
   \<exists>a'. node_at (replaceChild p new ns) q = Some a' \<and> tagName a' = tagName a \<and>
        attributes a' = attributes a \<and> length (childNodes a') = length (childNodes a)"
proof (induction p new ns arbitrary: q rule: replaceChild.induct)
  case (1 new ns)
  then show ?case by simp
next
  case (2 i new ns)
  then show ?case by (cases q) auto
next
  case (3 i j p new ns)
  from "3.prems" obtain q' where q: "q = i # q'" and sp: "strict_prefix q' (j # p)"
    by (cases q) auto
  from "3.prems" q have len: "i < length ns" by (auto simp: node_at_Cons split: if_splits)
  show ?case
  proof (cases "ns ! i")
    case (Text s)
    with len show ?thesis using "3.prems" by simp
  next
    case (Element t as cs)
    have step: "replaceChild (i # j # p) new ns = ns[i := Element t as (replaceChild (j # p) new cs)]"
      using len Element by simp
    show ?thesis
    proof (cases q')
      case Nil
      with q len Element "3.prems" have "a = Element t as cs" by simp
      with Nil q len show ?thesis unfolding step by simp
    next
      case (Cons l q'')
      with "3.prems" q len Element have "node_at cs q' = Some a" by simp
      from "3.IH" [OF len Element sp this] q len Cons show ?thesis unfolding step by simp
    qed
  qed
qed

lemma container_replaceChild:
  "node_at ns p = Some n \<Longrightarrow>
   \<exists>sibs. container ns (butlast p) = Some sibs \<and> last p < length sibs \<and> sibs ! last p = n \<and>
          container (replaceChild p new ns) (butlast p) = Some (sibs[last p := new])"
  by (induction p new ns rule: replaceChild.induct) (auto split: node.splits if_splits)


subsection \<open>The steps of \<open>replaceInputWithSelect\<close>\<close>

lemma querySelector_Some:
  assumes "querySelector s doc = Normal (Some (p, src))"
  shows "\<exists>v. parse_selector s = Normal (Input_named v) \<and> node_at doc p = Some src \<and>
             input_named v src"
proof -
  from assms obtain sel where sel: "parse_selector s = Normal sel"
    and found: "List.find (\<lambda>(p, n). matches sel n) (tree_order doc) = Some (p, src)"
    by (auto simp: querySelector_def split: completion.splits)
  obtain v where v: "sel = Input_named v" by (cases sel)
  from find_tree_order_Some(1,2) [OF found] sel v show ?thesis
    by (simp add: matches_input_named)
qed

lemma replace_success_iff:
  "replaceInputWithSelect f opts w = (Normal (Some sel), w') \<longleftrightarrow>
   (\<exists>p src as'. querySelector (selector_text f) (document w) = Normal (Some (p, src)) \<and>
      copy_attributes (attributes src) (createElement ''select'') = Normal (Element ''select'' as' []) \<and>
      sel = Element ''select'' as' (map option_element opts) \<and>
      w' = w\<lparr>document := replaceChild p sel (document w)\<rparr>)"
proof (cases "querySelector (selector_text f) (document w)")
  case (Normal r)
  show ?thesis
  proof (cases r)
    case None
    with Normal show ?thesis by (simp add: replaceInputWithSelect_def)
  next
    case (Some x)
    obtain p src where x: "x = (p, src)" by (cases x)
    show ?thesis
    proof (cases "copy_attributes (attributes src) (createElement ''select'')")
      case copied: (Normal select)
      then obtain as' where select: "select = Element ''select'' as' []"
        using copy_attributes_Normal [of "attributes src" "''select''" "[]" "[]" select]
        by (auto simp: createElement_def)
      with Normal Some x copied show ?thesis
        by (auto simp: replaceInputWithSelect_def add_options_Element)
    next
      case (Throw e)
      with Normal Some x show ?thesis by (simp add: replaceInputWithSelect_def)
    next
      case Unmodelled
      with Normal Some x show ?thesis by (simp add: replaceInputWithSelect_def)
    qed
  qed
next
  case (Throw e)
  then show ?thesis by (simp add: replaceInputWithSelect_def)
next
  case Unmodelled
  then show ?thesis by (simp add: replaceInputWithSelect_def)
qed

lemma replace_not_found:
  assumes "querySelector (selector_text f) (document w) = Normal None"
  shows "replaceInputWithSelect f opts w =
     (Normal None, w\<lparr>console := console w @ [Warn (not_found_message f)]\<rparr>)"
  using assms by (simp add: replaceInputWithSelect_def)

lemma querySelector_plain_None:
  assumes "plain_name f"
  shows "querySelector (selector_text f) doc = Normal None \<longleftrightarrow>
     list_all (\<lambda>n. \<not> input_named f n) (all_nodes doc)"
  using assms by (simp add: querySelector_plain find_tree_order_None list_all_iff)

lemma querySelector_plain_ex:
  assumes "plain_name f" and "list_ex (input_named f) (all_nodes doc)"
  shows "\<exists>p src. querySelector (selector_text f) doc = Normal (Some (p, src)) \<and>
     node_at doc p = Some src \<and> input_named f src"
proof -
  from assms(2) have "List.find (\<lambda>(p, n). input_named f n) (tree_order doc) \<noteq> None"
    by (auto simp: find_tree_order_None list_ex_iff)
  then obtain p src where found: "List.find (\<lambda>(p, n). input_named f n) (tree_order doc) = Some (p, src)"
    by auto
  from find_tree_order_Some(1,2) [OF found] found assms(1) show ?thesis
    by (simp add: querySelector_plain)
qed

lemma option_element_Element:
  "\<exists>as cs. option_element opt = Element ''option'' as cs"
  by (cases "opt_label opt") (auto simp: option_element_def createElement_def)

lemma option_element_Option:
  "textContent (option_element (Option l v)) = l"
  "getAttribute ''value'' (option_element (Option l v)) = Some v"
  by (auto simp: option_element_def createElement_def Option_def getAttribute_def)

lemma option_element_value_missing:
  "opt_value opt = JUndefined \<Longrightarrow> getAttribute ''value'' (option_element opt) = Some ''undefined''"
  by (cases "opt_label opt") (auto simp: option_element_def createElement_def getAttribute_def)

lemma option_element_label_missing:
  "opt_label opt = JUndefined \<Longrightarrow> childNodes (option_element opt) = []"
  by (auto simp: option_element_def createElement_def)

lemma replace_verbatim:
  assumes "querySelector (selector_text f) (document w) = Normal (Some (p, src))"
    and "verbatim_names (attributes src)"
  shows "replaceInputWithSelect f opts w =
     (Normal (Some (Element ''select'' (attributes src) (map option_element opts))),
      w\<lparr>document :=
          replaceChild p (Element ''select'' (attributes src) (map option_element opts))
            (document w)\<rparr>)"
proof -
  from assms(2)
  have "copy_attributes (attributes src) (Element ''select'' [] []) =
      Normal (Element ''select'' ([] @ attributes src) [])"
    unfolding verbatim_names_def accepted_names_def
    by (intro copy_attributes_verbatim) simp_all
  with assms(1) show ?thesis
    by (simp add: replace_success_iff createElement_def)
qed

lemma located_source:
  assumes "replaceInputWithSelect f opts w = (Normal (Some sel), w')"
  obtains p src as' v where
    "querySelector (selector_text f) (document w) = Normal (Some (p, src))"
    "node_at (document w) p = Some src" "input_named v src"
    "sel = Element ''select'' as' (map option_element opts)"
    "w' = w\<lparr>document := replaceChild p sel (document w)\<rparr>"
proof -
  from assms obtain p src as' where
    q: "querySelector (selector_text f) (document w) = Normal (Some (p, src))"
    and sel: "sel = Element ''select'' as' (map option_element opts)"
    and w': "w' = w\<lparr>document := replaceChild p sel (document w)\<rparr>"
    by (auto simp: replace_success_iff)
  from querySelector_Some [OF q] obtain v where
    "node_at (document w) p = Some src" "input_named v src" by blast
  with q sel w' that show thesis by blast
qed


subsection \<open>Calls with a plain field name\<close>

text \<open>
  Where the field name is plain, line 8 gives the selector it is meant to give. With no input
  element of that name the call returns \<open>undefined\<close>, leaves the document as it is and adds
  one warning to the console; a second call does the same again.
\<close>

lemma not_found_plain:
  assumes "plain_name f"
    and "list_all (\<lambda>n. \<not> input_named f n) (all_nodes (document w))"
  shows "replaceInputWithSelect f opts w =
     (Normal None,
      w\<lparr>console := console w @
         [Warn (''Input with name '' @ [CHR 0x22] @ f @ [CHR 0x22] @ '' not found'')]\<rparr>)"
proof -
  from assms have "querySelector (selector_text f) (document w) = Normal None"
    by (simp add: querySelector_plain_None)
  then show ?thesis
    by (simp add: replace_not_found not_found_message_def dquote_def)
qed

lemma not_found_twice_plain:
  assumes "plain_name f"
    and "list_all (\<lambda>n. \<not> input_named f n) (all_nodes (document w))"
  shows "fst (replaceInputWithSelect f opts w) = Normal None \<and>
    fst (replaceInputWithSelect f opts (snd (replaceInputWithSelect f opts w))) = Normal None \<and>
    document (snd (replaceInputWithSelect f opts w)) = document w \<and>
    document (snd (replaceInputWithSelect f opts (snd (replaceInputWithSelect f opts w)))) =
      document w \<and>
    console (snd (replaceInputWithSelect f opts (snd (replaceInputWithSelect f opts w)))) =
      console w @ [Warn (not_found_message f), Warn (not_found_message f)]"
proof -
  let ?w1 = "w\<lparr>console := console w @ [Warn (not_found_message f)]\<rparr>"
  from assms have first: "querySelector (selector_text f) (document w) = Normal None"
    by (simp add: querySelector_plain_None)
  then have "querySelector (selector_text f) (document ?w1) = Normal None"
    by simp
  then have second: "replaceInputWithSelect f opts ?w1 =
      (Normal None, ?w1\<lparr>console := console ?w1 @ [Warn (not_found_message f)]\<rparr>)"
    by (rule replace_not_found)
  from first have "replaceInputWithSelect f opts w = (Normal None, ?w1)"
    by (rule replace_not_found)
  with second show ?thesis by simp
qed

text \<open>
  With a plain field name the call does not throw when \<open>setAttribute\<close> accepts the attribute
  names of the input that the lookup returns: it ends in the warning or in the replacement.
\<close>

lemma completes_plain:
  assumes "plain_name f"
    and "\<And>p src. querySelector (selector_text f) (document w) = Normal (Some (p, src)) \<Longrightarrow>
           accepted_names (attributes src)"
  shows "(list_all (\<lambda>n. \<not> input_named f n) (all_nodes (document w)) \<and>
      replaceInputWithSelect f opts w =
        (Normal None, w\<lparr>console := console w @ [Warn (not_found_message f)]\<rparr>)) \<or>
    (\<exists>p src sel w'. node_at (document w) p = Some src \<and> input_named f src \<and>
      replaceInputWithSelect f opts w = (Normal (Some sel), w') \<and>
      tagName sel = Some ''select'' \<and> node_at (document w') p = Some sel)"
proof (cases "list_ex (input_named f) (all_nodes (document w))")
  case False
  then have none: "list_all (\<lambda>n. \<not> input_named f n) (all_nodes (document w))"
    by (simp add: list_all_iff list_ex_iff)
  with assms(1) have "querySelector (selector_text f) (document w) = Normal None"
    by (simp add: querySelector_plain_None)
  with none show ?thesis by (simp add: replace_not_found)
next
  case True
  from querySelector_plain_ex [OF assms(1) True] obtain p src where
    q: "querySelector (selector_text f) (document w) = Normal (Some (p, src))"
    and at: "node_at (document w) p = Some src" and src: "input_named f src"
    by blast
  from assms(2) [OF q] have "list_all valid_attribute_local_name (map fst (attributes src))"
    by (simp add: accepted_names_def)
  from copy_attributes_accepted [OF this, of "''select''" "[]" "[]"] obtain as' where
    "copy_attributes (attributes src) (createElement ''select'') =
       Normal (Element ''select'' as' [])"
    by (auto simp: createElement_def)
  with q have "replaceInputWithSelect f opts w =
      (Normal (Some (Element ''select'' as' (map option_element opts))),
       w\<lparr>document :=
           replaceChild p (Element ''select'' as' (map option_element opts)) (document w)\<rparr>)"
    by (simp add: replace_success_iff)
  moreover from at
  have "node_at (replaceChild p (Element ''select'' as' (map option_element opts)) (document w)) p =
      Some (Element ''select'' as' (map option_element opts))"
    by (rule node_at_replaceChild_same)
  ultimately show ?thesis using at src by auto
qed


subsection \<open>The example documents, evaluated\<close>

lemma run_size_world:
  "replaceInputWithSelect ''size'' small_large size_world =
     (Normal (Some (size_select small_large)),
      \<lparr>document = size_form_replaced small_large, console = []\<rparr>)"
  by code_simp

lemma query_size_form:
  "querySelector (selector_text ''size'') size_form = Normal (Some ([0, 1], size_input))"
  by code_simp

lemma plain_size: "plain_name ''size''"
  by code_simp

lemma size_form_has_size: "list_ex (input_named ''size'') (all_nodes size_form)"
  by code_simp

lemma size_input_verbatim: "verbatim_names (attributes size_input)"
  by code_simp

lemma document_size_world: "document size_world = size_form"
  by (simp add: size_world_def)


section \<open>The claims\<close>

subsection \<open>C1: the attributes of the source element\<close>

text \<open>
  Claim C1, as amended. Let the field name be plain and let the document contain an input
  element of that name. Then the lookup finds such an input, the source element; and when the
  attribute names of the source element are pairwise distinct, valid and in lower case, the
  call returns a select element whose attribute list is the attribute list of the source
  element: the same names with the same values, as many, in the same order.

  The claim was stated for every document with an element of that name. It fails where that
  element is not an input, since the selector asks for \<open>input\<close>, and where an attribute
  name is in mixed case, since \<open>setAttribute\<close> lowers it.
\<close>

theorem source_attributes_copied:
  assumes "plain_name f"
    and "list_ex (input_named f) (all_nodes (document w))"
  shows "\<exists>p src.
    querySelector (selector_text f) (document w) = Normal (Some (p, src)) \<and>
    node_at (document w) p = Some src \<and> input_named f src \<and>
    (verbatim_names (attributes src) \<longrightarrow>
       (\<exists>sel w'. replaceInputWithSelect f opts w = (Normal (Some sel), w') \<and>
          tagName sel = Some ''select'' \<and> attributes sel = attributes src))"
proof -
  from querySelector_plain_ex [OF assms] obtain p src where
    q: "querySelector (selector_text f) (document w) = Normal (Some (p, src))"
    and at: "node_at (document w) p = Some src" "input_named f src"
    by blast
  have "\<exists>sel w'. replaceInputWithSelect f opts w = (Normal (Some sel), w') \<and>
      tagName sel = Some ''select'' \<and> attributes sel = attributes src"
    if "verbatim_names (attributes src)"
    using replace_verbatim [OF q that, of opts] by simp
  with q at show ?thesis by blast
qed

theorem source_attributes_copied_witness:
  "plain_name ''size'' \<and> list_ex (input_named ''size'') (all_nodes size_form) \<and>
   verbatim_names (attributes size_input) \<and>
   (\<exists>sel w'. replaceInputWithSelect ''size'' small_large size_world = (Normal (Some sel), w') \<and>
      tagName sel = Some ''select'' \<and>
      attributes sel = [(''name'', ''size''), (''id'', ''x''), (''class'', ''y'')])"
proof -
  from source_attributes_copied [of "''size''" size_world small_large] plain_size
    size_form_has_size obtain p src where
    q: "querySelector (selector_text ''size'') size_form = Normal (Some (p, src))"
    and copied: "verbatim_names (attributes src) \<longrightarrow>
      (\<exists>sel w'. replaceInputWithSelect ''size'' small_large size_world = (Normal (Some sel), w') \<and>
         tagName sel = Some ''select'' \<and> attributes sel = attributes src)"
    unfolding document_size_world by blast
  from q query_size_form have "src = size_input" by simp
  with copied size_input_verbatim plain_size size_form_has_size show ?thesis
    by (simp add: size_input_def)
qed

text \<open>
  The textarea named \<open>f\<close> is not found, so no select is produced; and the select made from
  the input with the attribute \<open>viewBox\<close> has the attribute \<open>viewbox\<close> instead.
\<close>

theorem source_attributes_copied_counterexample:
  "list_ex (\<lambda>n. getAttribute ''name'' n = Some ''f'') (all_nodes textarea_page) \<and>
   replaceInputWithSelect ''f'' small_large \<lparr>document = textarea_page, console = []\<rparr> =
     (Normal None,
      \<lparr>document = textarea_page, console = [Warn (not_found_message ''f'')]\<rparr>) \<and>
   attributes camel_case_input = [(''name'', ''f''), (''viewBox'', ''0 0 1 1'')] \<and>
   replaceInputWithSelect ''f'' [] \<lparr>document = [camel_case_input], console = []\<rparr> =
     (Normal (Some (Element ''select'' [(''name'', ''f''), (''viewbox'', ''0 0 1 1'')] [])),
      \<lparr>document = [Element ''select'' [(''name'', ''f''), (''viewbox'', ''0 0 1 1'')] []],
       console = []\<rparr>)"
  by code_simp


subsection \<open>C2: one choice per option, in order\<close>

text \<open>
  Claim C2. When a call succeeds, the select it returns has exactly one child per option
  object, in the order of the options, and each child is an \<open>option\<close> element. For an
  option object with the texts \<open>l\<close> and \<open>v\<close> as label and value, the text content of
  the child is \<open>l\<close> and its attribute \<open>value\<close> is \<open>v\<close>. Nothing is sorted and
  nothing is dropped.
\<close>

theorem options_in_order:
  assumes "replaceInputWithSelect f opts w = (Normal (Some sel), w')"
  shows "length (childNodes sel) = length opts \<and>
    (\<forall>i<length opts.
       tagName (childNodes sel ! i) = Some ''option'' \<and>
       (\<forall>l v. opts ! i = Option l v \<longrightarrow>
          textContent (childNodes sel ! i) = l \<and>
          getAttribute ''value'' (childNodes sel ! i) = Some v))"
proof -
  from assms have kids: "childNodes sel = map option_element opts"
    by (auto simp: replace_success_iff)
  have "tagName (option_element opt) = Some ''option''" for opt
    using option_element_Element [of opt] by auto
  with kids show ?thesis by (auto simp: option_element_Option)
qed

theorem options_in_order_witness:
  "replaceInputWithSelect ''size'' small_large size_world =
     (Normal (Some (size_select small_large)),
      \<lparr>document = size_form_replaced small_large, console = []\<rparr>) \<and>
   length (childNodes (size_select small_large)) = 2 \<and>
   textContent (childNodes (size_select small_large) ! 0) = ''Small'' \<and>
   getAttribute ''value'' (childNodes (size_select small_large) ! 0) = Some ''s'' \<and>
   textContent (childNodes (size_select small_large) ! 1) = ''Large'' \<and>
   getAttribute ''value'' (childNodes (size_select small_large) ! 1) = Some ''l''"
proof -
  note inst = options_in_order [OF run_size_world]
  have opts: "length small_large = 2" "small_large ! 0 = Option ''Small'' ''s''"
      "small_large ! 1 = Option ''Large'' ''l''"
    by (simp_all add: small_large_def)
  from inst opts(1) have len: "length (childNodes (size_select small_large)) = 2"
    by simp
  from inst opts(1) have each: "small_large ! i = Option l v \<Longrightarrow> i < 2 \<Longrightarrow>
      textContent (childNodes (size_select small_large) ! i) = l \<and>
      getAttribute ''value'' (childNodes (size_select small_large) ! i) = Some v" for i l v
    by simp
  from each [OF opts(2)] each [OF opts(3)] run_size_world len show ?thesis
    by simp
qed


subsection \<open>C3: the field is not found\<close>

text \<open>
  Claim C3. For every document with no element of the given name the call changes nothing in
  the document, creates no choice element, returns \<open>undefined\<close> and logs exactly one
  warning, \<^verbatim>\<open>Input with name "<fieldName>" not found\<close>.

  The code means to do so: lines 10 to 13 are this path, and \<open>not_found_plain\<close> shows that
  every plain field name takes it. But line 8 puts the field name between double quotes
  without escaping it. For the field name \<^verbatim>\<open>size"\<close> the selector text is
  \<^verbatim>\<open>input[name="size""]\<close>, which is no selector. No element of the form has that name,
  and the call throws a SyntaxError in line 8: nothing is returned and nothing is logged.
\<close>

theorem not_found_path_missed:
  "list_all (\<lambda>n. getAttribute ''name'' n \<noteq> Some (''size'' @ [CHR 0x22])) (all_nodes size_form) \<and>
   replaceInputWithSelect (''size'' @ [CHR 0x22]) small_large size_world =
     (Throw SyntaxError, size_world) \<and>
   console size_world = []"
  by code_simp


subsection \<open>C4: the ways a call can end\<close>

text \<open>
  Claim C4. The only failure of a call is that the field is not found: for no field name and
  no list of option objects does the call throw, and a call that finds the field completes
  the replacement.

  The code misses this in two places, each shown here by one call. Line 8 does not escape the
  field name, so a line feed in it makes the selector text invalid and \<open>querySelector\<close>
  throws a SyntaxError. Line 20 is to copy all attributes, but \<open>setAttribute\<close> refuses the
  name \<open>=b\<close> that the HTML parser gives the second attribute of
  \<^verbatim>\<open><input name="f" =b="c">\<close>: the call throws an InvalidCharacterError although the
  field is found. \<open>completes_plain\<close> shows that the call does not throw elsewhere.
\<close>

theorem throws_other_than_not_found:
  "replaceInputWithSelect [CHR ''a'', CHR 0x0A, CHR ''b''] small_large size_world =
     (Throw SyntaxError, size_world) \<and>
   list_ex (input_named ''f'') (all_nodes equals_sign_page) \<and>
   replaceInputWithSelect ''f'' small_large \<lparr>document = equals_sign_page, console = []\<rparr> =
     (Throw InvalidCharacterError, \<lparr>document = equals_sign_page, console = []\<rparr>)"
  by code_simp


subsection \<open>C5: which element the lookup selects\<close>

text \<open>
  Claim C5, as amended. For a plain field name the lookup returns the node at path \<open>p\<close>
  exactly when that node is an input element whose attribute \<open>name\<close> is the field name and
  no node before \<open>p\<close> in document order is such an input; and it returns null exactly when
  no node of the document is such an input. Among several inputs of that name the first in
  document order wins.

  The claim was stated regardless of the kind of the element. The selector begins with
  \<open>input\<close>, so an element of another kind with that name is passed over.
\<close>

theorem first_input_wins:
  assumes "plain_name f"
  shows "(querySelector (selector_text f) doc = Normal (Some (p, n)) \<longleftrightarrow>
      node_at doc p = Some n \<and> input_named f n \<and>
      (\<forall>q m. precedes q p \<and> node_at doc q = Some m \<longrightarrow> \<not> input_named f m)) \<and>
    (querySelector (selector_text f) doc = Normal None \<longleftrightarrow>
      list_all (\<lambda>n. \<not> input_named f n) (all_nodes doc))"
proof (rule conjI)
  show "querySelector (selector_text f) doc = Normal (Some (p, n)) \<longleftrightarrow>
      node_at doc p = Some n \<and> input_named f n \<and>
      (\<forall>q m. precedes q p \<and> node_at doc q = Some m \<longrightarrow> \<not> input_named f m)"
  proof (rule iffI)
    assume "querySelector (selector_text f) doc = Normal (Some (p, n))"
    with assms
    have found: "List.find (\<lambda>(p, n). input_named f n) (tree_order doc) = Some (p, n)"
      by (simp add: querySelector_plain)
    from find_tree_order_Some [OF found]
    show "node_at doc p = Some n \<and> input_named f n \<and>
        (\<forall>q m. precedes q p \<and> node_at doc q = Some m \<longrightarrow> \<not> input_named f m)"
      by blast
  next
    assume first: "node_at doc p = Some n \<and> input_named f n \<and>
        (\<forall>q m. precedes q p \<and> node_at doc q = Some m \<longrightarrow> \<not> input_named f m)"
    have "List.find (\<lambda>(p, n). input_named f n) (tree_order doc) = Some (p, n)"
    proof (rule find_tree_order_first [where P = "input_named f"])
      show "node_at doc p = Some n" and "input_named f n"
        using first by blast+
      show "\<not> input_named f m" if "precedes q p" "node_at doc q = Some m" for q m
        using first that by blast
    qed
    with assms show "querySelector (selector_text f) doc = Normal (Some (p, n))"
      by (simp add: querySelector_plain)
  qed
  show "querySelector (selector_text f) doc = Normal None \<longleftrightarrow>
      list_all (\<lambda>n. \<not> input_named f n) (all_nodes doc)"
    using assms by (rule querySelector_plain_None)
qed

theorem first_input_wins_witness:
  "plain_name ''f'' \<and>
   querySelector (selector_text ''f'') mixed_page = Normal (Some ([1, 0], first_f)) \<and>
   node_at mixed_page [1, 0] = Some first_f \<and> input_named ''f'' first_f \<and>
   node_at mixed_page [2] = Some (Element ''input'' [(''name'', ''f''), (''id'', ''b'')] []) \<and>
   precedes [1, 0] [2]"
proof -
  have plain: "plain_name ''f''" by code_simp
  have q: "querySelector (selector_text ''f'') mixed_page = Normal (Some ([1, 0], first_f))"
    by code_simp
  have later:
    "node_at mixed_page [2] = Some (Element ''input'' [(''name'', ''f''), (''id'', ''b'')] [])"
    "precedes [1, 0] [2]"
    by (simp_all add: mixed_page_def)
  from first_input_wins [OF plain, of mixed_page "[1, 0]" first_f] q
  have "node_at mixed_page [1, 0] = Some first_f \<and> input_named ''f'' first_f"
    by blast
  with plain q later show ?thesis by blast
qed

text \<open>
  In the mixed page the first element named \<open>f\<close> is the textarea at path \<open>[0]\<close>; the
  lookup returns the input at path \<open>[1, 0]\<close>, which comes later.
\<close>

theorem first_input_wins_counterexample:
  "node_at mixed_page [0] = Some (Element ''textarea'' [(''name'', ''f'')] []) \<and>
   getAttribute ''name'' (Element ''textarea'' [(''name'', ''f'')] []) = Some ''f'' \<and>
   precedes [0] [1, 0] \<and>
   querySelector (selector_text ''f'') mixed_page = Normal (Some ([1, 0], first_f))"
  by code_simp

subsection \<open>C6: the place of the select\<close>

text \<open>
  Claim C6. When a call succeeds, the select it returns stands at the path at which the lookup
  found the source element: under the same parent, at the same index. The child list of the
  parent is the one before the call with the select put at that index, so the siblings keep
  their order and the input, the source element, is no longer in it. The select is the value
  returned to the caller.
\<close>

theorem position_preserved:
  assumes "replaceInputWithSelect f opts w = (Normal (Some sel), w')"
  shows "\<exists>p src sibs.
    querySelector (selector_text f) (document w) = Normal (Some (p, src)) \<and>
    tagName src = Some ''input'' \<and> tagName sel = Some ''select'' \<and>
    p \<noteq> [] \<and> node_at (document w) p = Some src \<and>
    node_at (document w') p = Some sel \<and>
    container (document w) (butlast p) = Some sibs \<and>
    last p < length sibs \<and> sibs ! last p = src \<and>
    container (document w') (butlast p) = Some (sibs[last p := sel])"
proof -
  from assms obtain p src as' v where
    q: "querySelector (selector_text f) (document w) = Normal (Some (p, src))"
    and at: "node_at (document w) p = Some src" and src: "input_named v src"
    and sel: "sel = Element ''select'' as' (map option_element opts)"
    and w': "w' = w\<lparr>document := replaceChild p sel (document w)\<rparr>"
    by (rule located_source)
  from container_replaceChild [OF at, of sel] obtain sibs where
    "container (document w) (butlast p) = Some sibs" "last p < length sibs"
    "sibs ! last p = src"
    "container (replaceChild p sel (document w)) (butlast p) = Some (sibs[last p := sel])"
    by blast
  moreover from at have "node_at (replaceChild p sel (document w)) p = Some sel"
    by (rule node_at_replaceChild_same)
  moreover from src have "tagName src = Some ''input''" by (simp add: input_named_def)
  moreover from sel have "tagName sel = Some ''select''" by simp
  moreover from at have "p \<noteq> []" by auto
  ultimately show ?thesis using q at w' by auto
qed

theorem position_preserved_witness:
  "replaceInputWithSelect ''size'' small_large size_world =
     (Normal (Some (size_select small_large)),
      \<lparr>document = size_form_replaced small_large, console = []\<rparr>) \<and>
   node_at size_form [0, 1] = Some size_input \<and>
   node_at (size_form_replaced small_large) [0, 1] = Some (size_select small_large) \<and>
   (\<exists>sibs. container size_form [0] = Some sibs \<and> sibs ! 1 = size_input \<and>
      container (size_form_replaced small_large) [0] = Some (sibs[1 := size_select small_large]))"
proof -
  from position_preserved [OF run_size_world] obtain p src sibs where
    q: "querySelector (selector_text ''size'') (document size_world) = Normal (Some (p, src))"
    and rest: "node_at (document size_world) p = Some src"
      "node_at (size_form_replaced small_large) p = Some (size_select small_large)"
      "container (document size_world) (butlast p) = Some sibs"
      "sibs ! last p = src"
      "container (size_form_replaced small_large) (butlast p) =
         Some (sibs[last p := size_select small_large])"
    by auto
  from q query_size_form have "p = [0, 1]" "src = size_input"
    by (simp_all add: document_size_world)
  with rest run_size_world show ?thesis by (auto simp: document_size_world)
qed


subsection \<open>C7: what a successful call leaves alone\<close>

text \<open>
  Claim C7. A successful call changes the world in one way only: the document after the call
  is the document before it with the select put at the path \<open>p\<close> of the source element.
  The console is as it was. Every path that is neither above nor below \<open>p\<close> leads to the
  same node as before, or to no node as before. Every node above \<open>p\<close> keeps its tag name,
  its attributes and the number of its children.
\<close>

theorem only_the_source_changes:
  assumes "replaceInputWithSelect f opts w = (Normal (Some sel), w')"
  shows "\<exists>p src.
    querySelector (selector_text f) (document w) = Normal (Some (p, src)) \<and>
    w' = w\<lparr>document := replaceChild p sel (document w)\<rparr> \<and>
    console w' = console w \<and>
    length (document w') = length (document w) \<and>
    (\<forall>q. \<not> prefix p q \<and> \<not> prefix q p \<longrightarrow>
       node_at (document w') q = node_at (document w) q) \<and>
    (\<forall>q a. strict_prefix q p \<and> node_at (document w) q = Some a \<longrightarrow>
       (\<exists>a'. node_at (document w') q = Some a' \<and> tagName a' = tagName a \<and>
          attributes a' = attributes a \<and>
          length (childNodes a') = length (childNodes a)))"
proof -
  from assms obtain p src as' v where
    q: "querySelector (selector_text f) (document w) = Normal (Some (p, src))"
    and w': "w' = w\<lparr>document := replaceChild p sel (document w)\<rparr>"
    by (rule located_source)
  have "node_at (replaceChild p sel (document w)) q' = node_at (document w) q'"
    if "\<not> prefix p q'" "\<not> prefix q' p" for q'
    using that by (rule node_at_replaceChild_other)
  moreover have "\<exists>a'. node_at (replaceChild p sel (document w)) q' = Some a' \<and>
      tagName a' = tagName a \<and> attributes a' = attributes a \<and>
      length (childNodes a') = length (childNodes a)"
    if "strict_prefix q' p" "node_at (document w) q' = Some a" for q' a
    using that by (rule node_at_replaceChild_ancestor)
  ultimately show ?thesis using q w' by auto
qed

theorem only_the_source_changes_witness:
  "replaceInputWithSelect ''size'' small_large size_world =
     (Normal (Some (size_select small_large)),
      \<lparr>document = size_form_replaced small_large, console = []\<rparr>) \<and>
   node_at (size_form_replaced small_large) [0, 2] = node_at size_form [0, 2] \<and>
   node_at (size_form_replaced small_large) [0, 0, 0] = node_at size_form [0, 0, 0] \<and>
   (\<exists>a'. node_at (size_form_replaced small_large) [0] = Some a' \<and>
      tagName a' = Some ''form'' \<and> attributes a' = [(''id'', ''hs'')] \<and>
      length (childNodes a') = 3)"
proof -
  from only_the_source_changes [OF run_size_world] obtain p src where
    q: "querySelector (selector_text ''size'') size_form = Normal (Some (p, src))"
    and other: "\<And>q. \<not> prefix p q \<and> \<not> prefix q p \<Longrightarrow>
      node_at (size_form_replaced small_large) q = node_at size_form q"
    and above: "\<And>q a. strict_prefix q p \<and> node_at size_form q = Some a \<Longrightarrow>
      \<exists>a'. node_at (size_form_replaced small_large) q = Some a' \<and> tagName a' = tagName a \<and>
        attributes a' = attributes a \<and> length (childNodes a') = length (childNodes a)"
    unfolding document_size_world by auto
  from q query_size_form have p: "p = [0, 1]" by simp
  obtain form where form: "node_at size_form [0] = Some form" "tagName form = Some ''form''"
    "attributes form = [(''id'', ''hs'')]" "length (childNodes form) = 3"
    by (simp add: size_form_def)
  from other [of "[0, 2]"] other [of "[0, 0, 0]"] above [of "[0]" form] form run_size_world
  show ?thesis by (simp add: p)
qed


subsection \<open>C8: no options\<close>

text \<open>
  Claim C8, as amended. Let the field name be plain and let the document contain an input
  element of that name. Then the lookup finds such an input; and when its attribute names are
  pairwise distinct, valid and in lower case, the call with the empty list of options returns
  a select element with no children and with the attribute list of that input.

  The claim was stated for every document with an element of that name. The call returns
  \<open>undefined\<close> where that element is not an input, and it throws where an attribute name of
  the input is refused by \<open>setAttribute\<close>.
\<close>

theorem no_options_no_choices:
  assumes "plain_name f"
    and "list_ex (input_named f) (all_nodes (document w))"
  shows "\<exists>p src.
    querySelector (selector_text f) (document w) = Normal (Some (p, src)) \<and>
    node_at (document w) p = Some src \<and> input_named f src \<and>
    (verbatim_names (attributes src) \<longrightarrow>
       (\<exists>sel w'. replaceInputWithSelect f [] w = (Normal (Some sel), w') \<and>
          tagName sel = Some ''select'' \<and> childNodes sel = [] \<and>
          attributes sel = attributes src))"
proof -
  from querySelector_plain_ex [OF assms] obtain p src where
    q: "querySelector (selector_text f) (document w) = Normal (Some (p, src))"
    and at: "node_at (document w) p = Some src" "input_named f src"
    by blast
  have "\<exists>sel w'. replaceInputWithSelect f [] w = (Normal (Some sel), w') \<and>
      tagName sel = Some ''select'' \<and> childNodes sel = [] \<and>
      attributes sel = attributes src"
    if "verbatim_names (attributes src)"
    using replace_verbatim [OF q that, of "[]"] by simp
  with q at show ?thesis by blast
qed

theorem no_options_no_choices_witness:
  "plain_name ''size'' \<and> list_ex (input_named ''size'') (all_nodes size_form) \<and>
   verbatim_names (attributes size_input) \<and>
   (\<exists>sel w'. replaceInputWithSelect ''size'' [] size_world = (Normal (Some sel), w') \<and>
      tagName sel = Some ''select'' \<and> childNodes sel = [] \<and>
      attributes sel = [(''name'', ''size''), (''id'', ''x''), (''class'', ''y'')])"
proof -
  from no_options_no_choices [of "''size''" size_world] plain_size
    size_form_has_size obtain p src where
    q: "querySelector (selector_text ''size'') size_form = Normal (Some (p, src))"
    and copied: "verbatim_names (attributes src) \<longrightarrow>
      (\<exists>sel w'. replaceInputWithSelect ''size'' [] size_world = (Normal (Some sel), w') \<and>
         tagName sel = Some ''select'' \<and> childNodes sel = [] \<and>
         attributes sel = attributes src)"
    unfolding document_size_world by blast
  from q query_size_form have "src = size_input" by simp
  with copied size_input_verbatim plain_size size_form_has_size show ?thesis
    by (simp add: size_input_def)
qed

text \<open>
  A select element is already named \<open>f\<close>: nothing is found. An input named \<open>f\<close> has an
  attribute named \<open>=b\<close>: the call throws.
\<close>

theorem no_options_no_choices_counterexample:
  "list_ex (\<lambda>n. getAttribute ''name'' n = Some ''f'') (all_nodes select_page) \<and>
   replaceInputWithSelect ''f'' [] \<lparr>document = select_page, console = []\<rparr> =
     (Normal None,
      \<lparr>document = select_page, console = [Warn (not_found_message ''f'')]\<rparr>) \<and>
   list_ex (input_named ''f'') (all_nodes equals_sign_page) \<and>
   replaceInputWithSelect ''f'' [] \<lparr>document = equals_sign_page, console = []\<rparr> =
     (Throw InvalidCharacterError, \<lparr>document = equals_sign_page, console = []\<rparr>)"
  by code_simp


subsection \<open>C9: looking twice for a field that is not there\<close>

text \<open>
  Claim C9. For every document with no element of the given name, two calls in succession
  both give the result for a field that is not found, and neither changes the document.

  \<open>not_found_twice_plain\<close> shows this for every plain field name. The code misses it where
  line 8, which does not escape the field name, builds a text that is no selector. The field
  name \<^verbatim>\<open>a""b\<close> gives \<^verbatim>\<open>input[name="a""b"]\<close>, in which two strings follow the equals
  sign. No element of the form has that name, and both calls throw a SyntaxError instead of
  returning \<open>undefined\<close>.
\<close>

theorem absence_twice_missed:
  "list_all (\<lambda>n. getAttribute ''name'' n \<noteq> Some [CHR ''a'', CHR 0x22, CHR 0x22, CHR ''b''])
     (all_nodes size_form) \<and>
   replaceInputWithSelect [CHR ''a'', CHR 0x22, CHR 0x22, CHR ''b''] [] size_world =
     (Throw SyntaxError, size_world) \<and>
   fst (replaceInputWithSelect [CHR ''a'', CHR 0x22, CHR 0x22, CHR ''b''] []
          (snd (replaceInputWithSelect [CHR ''a'', CHR 0x22, CHR 0x22, CHR ''b''] [] size_world))) =
     Throw SyntaxError"
  by code_simp


subsection \<open>C10: option objects with a property missing\<close>

text \<open>
  Claim C10, as amended. Whether a call succeeds does not depend on the option objects: when
  it succeeds for one list of options it succeeds for every list, and no option object is
  refused. The child made from an option object without \<open>value\<close> has the attribute
  \<open>value\<close> with the text \<open>undefined\<close>; the child made from an option object without
  \<open>label\<close> has no children, so its text content is empty.

  The claim had the empty string as the value of a choice whose \<open>value\<close> is missing. The
  assignment in line 26 converts \<open>undefined\<close> to a string, and that string is not empty.
\<close>

theorem missing_fields_are_converted:
  assumes "replaceInputWithSelect f opts0 w = (Normal (Some sel0), w0)"
  shows "\<exists>sel w'. replaceInputWithSelect f opts w = (Normal (Some sel), w') \<and>
    length (childNodes sel) = length opts \<and>
    (\<forall>i<length opts.
       (opt_value (opts ! i) = JUndefined \<longrightarrow>
          getAttribute ''value'' (childNodes sel ! i) = Some ''undefined'') \<and>
       (opt_label (opts ! i) = JUndefined \<longrightarrow>
          childNodes (childNodes sel ! i) = [] \<and> textContent (childNodes sel ! i) = []))"
proof -
  from assms obtain p src as' where
    q: "querySelector (selector_text f) (document w) = Normal (Some (p, src))"
    and copied: "copy_attributes (attributes src) (createElement ''select'') =
      Normal (Element ''select'' as' [])"
    by (auto simp: replace_success_iff)
  let ?sel = "Element ''select'' as' (map option_element opts)"
  from q copied have run: "replaceInputWithSelect f opts w =
      (Normal (Some ?sel), w\<lparr>document := replaceChild p ?sel (document w)\<rparr>)"
    by (simp add: replace_success_iff)
  have no_text: "textContent n = []" if "childNodes n = []" "tagName n \<noteq> None" for n
    using that by (cases n) auto
  have "textContent (option_element opt) = []" if "opt_label opt = JUndefined" for opt
    using option_element_label_missing [OF that] option_element_Element [of opt]
    by (intro no_text) auto
  with run show ?thesis
    by (auto simp: option_element_value_missing option_element_label_missing)
qed

theorem missing_fields_are_converted_witness:
  "replaceInputWithSelect ''size'' small_large size_world =
     (Normal (Some (size_select small_large)),
      \<lparr>document = size_form_replaced small_large, console = []\<rparr>) \<and>
   (\<exists>sel w'. replaceInputWithSelect ''size'' [no_value, no_label] size_world =
        (Normal (Some sel), w') \<and>
      length (childNodes sel) = 2 \<and>
      getAttribute ''value'' (childNodes sel ! 0) = Some ''undefined'' \<and>
      childNodes (childNodes sel ! 1) = [] \<and> textContent (childNodes sel ! 1) = [])"
proof -
  have fields: "opt_value ([no_value, no_label] ! 0) = JUndefined"
      "opt_label ([no_value, no_label] ! 1) = JUndefined"
    by (simp_all add: no_value_def no_label_def)
  from missing_fields_are_converted [OF run_size_world, of "[no_value, no_label]"]
  obtain sel w' where
    run: "replaceInputWithSelect ''size'' [no_value, no_label] size_world = (Normal (Some sel), w')"
    and len: "length (childNodes sel) = length [no_value, no_label]"
    and each: "\<forall>i<length [no_value, no_label].
       (opt_value ([no_value, no_label] ! i) = JUndefined \<longrightarrow>
          getAttribute ''value'' (childNodes sel ! i) = Some ''undefined'') \<and>
       (opt_label ([no_value, no_label] ! i) = JUndefined \<longrightarrow>
          childNodes (childNodes sel ! i) = [] \<and> textContent (childNodes sel ! i) = [])"
    by blast
  from each fields(1) have "getAttribute ''value'' (childNodes sel ! 0) = Some ''undefined''"
    by (metis length_Cons zero_less_Suc)
  moreover from each fields(2)
  have "childNodes (childNodes sel ! 1) = [] \<and> textContent (childNodes sel ! 1) = []"
    by (metis One_nat_def length_Cons list.size(3) lessI)
  ultimately show ?thesis using run len run_size_world by auto
qed

text \<open>
  The option object has the label \<open>Any\<close> and no value. The choice made from it has the
  value \<open>undefined\<close>, not the empty string.
\<close>

theorem missing_fields_are_converted_counterexample:
  "opt_value no_value = JUndefined \<and>
   fst (replaceInputWithSelect ''size'' [no_value] size_world) =
     Normal (Some (Element ''select'' [(''name'', ''size''), (''id'', ''x''), (''class'', ''y'')]
       [Element ''option'' [(''value'', ''undefined'')] [Text ''Any'']])) \<and>
   getAttribute ''value'' (Element ''option'' [(''value'', ''undefined'')] [Text ''Any'']) =
     Some ''undefined''"
  by code_simp

end
